theory Spec2Isabelle
  imports Main "HOL-Library.Word" "HOL-Library.Sublist"
begin

section \<open>Strings of the program\<close>

text \<open>
  A JavaScript string is a sequence of 16-bit code units. All string operations the
  program uses (\<open>split\<close>, \<open>replace\<close>, \<open>includes\<close>, \<open>endsWith\<close>, the regular
  expressions without the \<open>u\<close> flag) work on code units, so a string is modelled as a
  list of 16-bit words. \<open>js\<close> writes a literal.
\<close>

type_synonym jschar = "16 word"
type_synonym jsstring = "jschar list"

definition js :: "string \<Rightarrow> jsstring" where
  "js s = map of_char s"

definition star :: jschar where
  "star = 0x2A"

text \<open>
  The code units matched by \<open>\s\<close> in a regular expression (white space and line
  terminators of ECMAScript), and the line terminators, which \<open>.\<close> does not match.
\<close>

definition isSpace :: "jschar \<Rightarrow> bool" where
  "isSpace c = (c = 0x09 \<or> c = 0x0A \<or> c = 0x0B \<or> c = 0x0C \<or> c = 0x0D \<or> c = 0x20
     \<or> c = 0xA0 \<or> c = 0x1680 \<or> (0x2000 \<le> c \<and> c \<le> 0x200A) \<or> c = 0x2028 \<or> c = 0x2029
     \<or> c = 0x202F \<or> c = 0x205F \<or> c = 0x3000 \<or> c = 0xFEFF)"

definition isLineTerminator :: "jschar \<Rightarrow> bool" where
  "isLineTerminator c = (c = 0x0A \<or> c = 0x0D \<or> c = 0x2028 \<or> c = 0x2029)"

text \<open>\<open>s.endsWith(t)\<close>, \<open>s.includes(t)\<close> (named \<open>includes_js\<close> here) and \<open>s.split('\n')\<close>.\<close>

definition endsWith :: "jsstring \<Rightarrow> jsstring \<Rightarrow> bool" where
  "endsWith s t = (length t \<le> length s \<and> drop (length s - length t) s = t)"

fun includes_js :: "jsstring \<Rightarrow> jsstring \<Rightarrow> bool" where
  "includes_js [] t = (t = [])"
| "includes_js (c # s) t = (take (length t) (c # s) = t \<or> includes_js s t)"

fun split_nl :: "jsstring \<Rightarrow> jsstring list" where
  "split_nl [] = [[]]"
| "split_nl (c # cs) =
     (if c = 0x0A then [] # split_nl cs
      else (case split_nl cs of l # ls \<Rightarrow> (c # l) # ls | [] \<Rightarrow> [[c]]))"

section \<open>Flags\<close>

text \<open>
  The values a flag, or the resolved main branch name, can hold: \<open>undefined\<close> (also
  what a lookup of an absent key gives), \<open>null\<close>, \<open>true\<close>, or a string. \<open>truthy\<close>
  is JavaScript's conversion to a boolean and \<open>toStr\<close> the conversion a template
  literal applies.
\<close>

datatype jsval = JUndefined | JNull | JTrue | JStr jsstring

fun truthy :: "jsval \<Rightarrow> bool" where
  "truthy JUndefined = False"
| "truthy JNull = False"
| "truthy JTrue = True"
| "truthy (JStr s) = (s \<noteq> [])"

fun toStr :: "jsval \<Rightarrow> jsstring" where
  "toStr JUndefined = js ''undefined''"
| "toStr JNull = js ''null''"
| "toStr JTrue = js ''true''"
| "toStr (JStr s) = s"

datatype flagName = HELP | DRY_RUN | FORCE | HEAD

type_synonym flags = "flagName \<Rightarrow> jsval"

record availableFlag =
  name :: flagName
  hasValue :: bool
  keys :: "jsstring list"

definition availableFlags :: "availableFlag list" where
  "availableFlags =
     [\<lparr>name = HELP, hasValue = False, keys = [js ''-h'', js ''--help'']\<rparr>,
      \<lparr>name = DRY_RUN, hasValue = False, keys = [js ''--dry-run'']\<rparr>,
      \<lparr>name = FORCE, hasValue = False, keys = [js ''-f'', js ''--force'']\<rparr>,
      \<lparr>name = HEAD, hasValue = True, keys = [js ''--head'']\<rparr>]"

section \<open>The process: command runner, regular expression state, console\<close>

text \<open>
  What \<open>child_process.exec\<close> hands to its callback: the error's message when there is
  an error, and the two output streams.
\<close>

record procResult =
  err :: "jsstring option"
  out :: jsstring
  errout :: jsstring

text \<open>
  The command runner is the program's environment. Its answer may depend on the command
  and on every command issued before it, so any sequence of answers is covered. A
  command that never calls back (a hung process) is outside the model.
\<close>

type_synonym runner = "jsstring list \<Rightarrow> jsstring \<Rightarrow> procResult"

text \<open>
  Console output is recorded as one event for each \<open>console.log\<close> or
  \<open>console.error\<close> call of the source, carrying the values interpolated into the
  message instead of the rendered text.
\<close>

datatype consoleEvent =
    LogStarting
  | LogWithArguments "jsstring list"
  | LogFlagMessage flagName jsval
  | ErrorCannotFindHead
  | LogDetected jsstring
  | LogNotOnMain jsstring
  | LogNoBranches
  | LogDeleting jsstring
  | LogDryRun jsstring
  | ErrorNotFullyMerged jsstring jsstring
  | ErrorDelete jsstring
  | LogDeleted int
  | ErrorCaught jsstring

text \<open>
  The state of the process: the commands handed to \<open>child_process.exec\<close> so far, the
  \<open>lastIndex\<close> property of the module-level \<open>HEAD_BRANCH_REGEX\<close> object (which has
  the \<open>g\<close> flag), and the console.
\<close>

record world =
  issued :: "jsstring list"
  lastIndex :: nat
  console :: "consoleEvent list"

definition log :: "consoleEvent \<Rightarrow> world \<Rightarrow> world" where
  "log e w = w\<lparr>console := console w @ [e]\<rparr>"

text \<open>
  \<open>exec\<close>: a rejected promise is \<open>Inl\<close> with the rejection string, a resolved one is
  \<open>Inr\<close> with the standard output.
\<close>

definition exec :: "runner \<Rightarrow> jsstring \<Rightarrow> bool \<Rightarrow> world \<Rightarrow> (jsstring + jsstring) \<times> world" where
  "exec sh command ignoreStderr w =
     (let r = sh (issued w) command;
          w' = w\<lparr>issued := issued w @ [command]\<rparr>
      in case err r of
           Some message \<Rightarrow> (Inl (js ''Error: '' @ message), w')
         | None \<Rightarrow>
             if errout r \<noteq> [] \<and> \<not> ignoreStderr then (Inl (js ''Stderr: '' @ errout r), w')
             else (Inr (out r), w'))"

section \<open>sanitizeBranchOutput\<close>

definition sanitizeBranchOutput :: "jsstring \<Rightarrow> jsstring list" where
  "sanitizeBranchOutput output =
     filter (\<lambda>str. str \<noteq> []) (map (filter (\<lambda>c. \<not> isSpace c)) (split_nl output))"

section \<open>getActiveFlags\<close>

definition getActiveFlagsStep ::
  "jsstring list \<Rightarrow> flags \<times> world \<Rightarrow> jsstring \<times> nat \<Rightarrow> flags \<times> world" where
  "getActiveFlagsStep args acc ai =
     (case acc of (currentFlags, w) \<Rightarrow> case ai of (arg, index) \<Rightarrow>
        (case find (\<lambda>availableFlag. \<not> truthy (currentFlags (name availableFlag))
                      \<and> list_ex (\<lambda>flagKey. flagKey = arg) (keys availableFlag)) availableFlags of
           Some applicableFlag \<Rightarrow>
             (let value = (if hasValue applicableFlag
                           then (if index + 1 < length args then JStr (args ! (index + 1))
                                 else JUndefined)
                           else JTrue)
              in (currentFlags(name applicableFlag := value),
                  log (LogFlagMessage (name applicableFlag) value) w))
         | None \<Rightarrow> (currentFlags, w)))"

definition getActiveFlags :: "jsstring list \<Rightarrow> world \<Rightarrow> flags \<times> world" where
  "getActiveFlags args w =
     foldl (getActiveFlagsStep args) (\<lambda>_. JUndefined, w) (zip args [0..<length args])"

section \<open>HEAD_BRANCH_REGEX and getMainBranch\<close>

text \<open>
  The pattern \<open>HEAD\sbranch:\s(.+)\<close>. Its fixed part is a sequence of atoms, each
  matching one code unit; \<open>matchAtoms\<close> gives the text left after them. The group
  \<open>(.+)\<close> is greedy and last in the pattern, so it captures the longest run of code
  units that are not line terminators, and the match fails when that run is empty.
\<close>

datatype atom = Lit jschar | WhiteSpace

fun matchAtoms :: "atom list \<Rightarrow> jsstring \<Rightarrow> jsstring option" where
  "matchAtoms [] s = Some s"
| "matchAtoms (a # as) [] = None"
| "matchAtoms (Lit c # as) (d # s) = (if c = d then matchAtoms as s else None)"
| "matchAtoms (WhiteSpace # as) (d # s) = (if isSpace d then matchAtoms as s else None)"

definition headBranchAtoms :: "atom list" where
  "headBranchAtoms =
     map Lit (js ''HEAD'') @ [WhiteSpace] @ map Lit (js ''branch:'') @ [WhiteSpace]"

text \<open>A match starting exactly at the front of \<open>s\<close>: the capture of group 1.\<close>

definition matchHere :: "jsstring \<Rightarrow> jsstring option" where
  "matchHere s =
     (case matchAtoms headBranchAtoms s of
        None \<Rightarrow> None
      | Some rest \<Rightarrow>
          (let capture = takeWhile (\<lambda>c. \<not> isLineTerminator c) rest
           in if capture = [] then None else Some capture))"

text \<open>
  The leftmost match in the text \<open>s\<close>, which starts at index \<open>i\<close> of the whole input:
  the capture and the index where the match ends.
\<close>

fun scanFrom :: "jsstring \<Rightarrow> nat \<Rightarrow> (jsstring \<times> nat) option" where
  "scanFrom [] i = None"
| "scanFrom (c # s) i =
     (case matchHere (c # s) of
        Some capture \<Rightarrow> Some (capture, i + length headBranchAtoms + length capture)
      | None \<Rightarrow> scanFrom s (Suc i))"

text \<open>
  \<open>HEAD_BRANCH_REGEX.exec(text)\<close> for a regular expression with the \<open>g\<close> flag: the
  search starts at \<open>lastIndex\<close>; a failure resets \<open>lastIndex\<close> to 0, a success sets it
  to the end of the match. The result is group 1 of the match, or \<open>None\<close> for null.
\<close>

definition regexExec :: "jsstring \<Rightarrow> world \<Rightarrow> jsstring option \<times> world" where
  "regexExec text w =
     (if lastIndex w > length text then (None, w\<lparr>lastIndex := 0\<rparr>)
      else
        (case scanFrom (drop (lastIndex w) text) (lastIndex w) of
           None \<Rightarrow> (None, w\<lparr>lastIndex := 0\<rparr>)
         | Some (capture, e) \<Rightarrow> (Some capture, w\<lparr>lastIndex := e\<rparr>)))"

definition gitRemoteShowOrigin :: jsstring where
  "gitRemoteShowOrigin = js ''git remote show origin''"

definition getMainBranch :: "runner \<Rightarrow> flags \<Rightarrow> world \<Rightarrow> (jsstring + jsval) \<times> world" where
  "getMainBranch sh flags w =
     (if truthy (flags HEAD) then (Inr (flags HEAD), w)
      else
        (case exec sh gitRemoteShowOrigin False w of
           (Inl error, w1) \<Rightarrow> (Inl error, w1)
         | (Inr remoteInfo, w1) \<Rightarrow>
             (case regexExec remoteInfo w1 of
                (None, w2) \<Rightarrow> (Inr JNull, log ErrorCannotFindHead w2)
              | (Some capture, w2) \<Rightarrow>
                  (Inr (JStr capture), log (LogDetected capture) w2))))"

section \<open>The exported function\<close>

definition gitBranch :: jsstring where
  "gitBranch = js ''git branch''"

definition gitFetch :: jsstring where
  "gitFetch = js ''git fetch -p''"

definition gitBranchR :: jsstring where
  "gitBranchR = js ''git branch -r''"

text \<open>The value of \<open>currentBranch\<close> (line 95); \<open>None\<close> is \<open>undefined\<close>.\<close>

definition currentBranch :: "jsstring list \<Rightarrow> jsstring option" where
  "currentBranch localBranches = find (\<lambda>localBranch. includes_js localBranch [star]) localBranches"

text \<open>The value of \<open>branchesToDelete\<close> (lines 103 to 105).\<close>

definition branchesToDelete :: "jsstring list \<Rightarrow> jsstring list \<Rightarrow> jsval \<Rightarrow> jsstring list" where
  "branchesToDelete localBranches remoteBranches mainBranchName =
     filter (\<lambda>localBranch.
        \<not> list_ex (\<lambda>remoteBranch. endsWith remoteBranch localBranch) remoteBranches
        \<and> localBranch \<noteq> star # toStr mainBranchName) localBranches"

definition deleteCommand :: "flags \<Rightarrow> jsstring \<Rightarrow> jsstring" where
  "deleteCommand flags branch =
     js ''git branch '' @ (if truthy (flags FORCE) then js ''-D'' else js ''-d'') @ js '' '' @ branch"

text \<open>
  One link of the promise chain (lines 112 to 130): the accumulator is the counter
  \<open>amountDeletedBranches\<close> and the process state.
\<close>

definition deleteStep ::
  "runner \<Rightarrow> flags \<Rightarrow> jsval \<Rightarrow> int \<times> world \<Rightarrow> jsstring \<Rightarrow> int \<times> world" where
  "deleteStep sh flags mainBranchName acc branch =
     (case acc of (amountDeletedBranches, w) \<Rightarrow>
        (let w1 = log (LogDeleting branch) w
         in if truthy (flags DRY_RUN)
            then (amountDeletedBranches - 1, log (LogDryRun (deleteCommand flags branch)) w1)
            else
              (case exec sh (deleteCommand flags branch) False w1 of
                 (Inr _, w2) \<Rightarrow> (amountDeletedBranches, w2)
               | (Inl error, w2) \<Rightarrow>
                   (amountDeletedBranches - 1,
                    log (if includes_js error (js ''not fully merged'')
                         then ErrorNotFullyMerged branch (toStr mainBranchName)
                         else ErrorDelete error) w2))))"

text \<open>Lines 110 to 132: the counter, the sequential chain and the final report.\<close>

definition deletionPipeline ::
  "runner \<Rightarrow> flags \<Rightarrow> jsval \<Rightarrow> jsstring list \<Rightarrow> world \<Rightarrow> world" where
  "deletionPipeline sh flags mainBranchName bs w =
     (case foldl (deleteStep sh flags mainBranchName) (int (length bs), w) bs of
        (amountDeletedBranches, w') \<Rightarrow> log (LogDeleted amountDeletedBranches) w')"

text \<open>The body of the \<open>try\<close> block (lines 91 to 132); \<open>Inl\<close> is a thrown rejection.\<close>

definition cleanupTry :: "runner \<Rightarrow> flags \<Rightarrow> world \<Rightarrow> (jsstring + unit) \<times> world" where
  "cleanupTry sh flags w =
     (case getMainBranch sh flags w of
        (Inl error, w1) \<Rightarrow> (Inl error, w1)
      | (Inr mainBranchName, w1) \<Rightarrow>
          if \<not> truthy mainBranchName then (Inr (), w1)
          else
            (case exec sh gitBranch False w1 of
               (Inl error, w2) \<Rightarrow> (Inl error, w2)
             | (Inr localStdout, w2) \<Rightarrow>
                 (let localBranches = sanitizeBranchOutput localStdout
                  in if currentBranch localBranches \<noteq> Some (star # toStr mainBranchName)
                     then (Inr (), log (LogNotOnMain (toStr mainBranchName)) w2)
                     else
                       (case exec sh gitFetch True w2 of
                          (Inl error, w3) \<Rightarrow> (Inl error, w3)
                        | (Inr _, w3) \<Rightarrow>
                            (case exec sh gitBranchR False w3 of
                               (Inl error, w4) \<Rightarrow> (Inl error, w4)
                             | (Inr remoteStdout, w4) \<Rightarrow>
                                 (let remoteBranches = sanitizeBranchOutput remoteStdout;
                                      bs = branchesToDelete localBranches remoteBranches
                                             mainBranchName
                                  in if bs = [] then (Inr (), log LogNoBranches w4)
                                     else (Inr (),
                                           deletionPipeline sh flags mainBranchName bs w4)))))))"

text \<open>
  \<open>module.exports\<close>. The arguments are a list of strings (the command line); the
  result is the process state when the returned promise settles.
\<close>

definition gitCleanup :: "runner \<Rightarrow> jsstring list \<Rightarrow> world \<Rightarrow> world" where
  "gitCleanup sh args w =
     (let w1 = log LogStarting w;
          w2 = (if args \<noteq> [] then log (LogWithArguments args) w1 else w1)
      in case getActiveFlags args w2 of
           (flags, w3) \<Rightarrow>
             if truthy (flags HELP) then w3
             else
               (case cleanupTry sh flags w3 of
                  (Inl error, w4) \<Rightarrow> log (ErrorCaught error) w4
                | (Inr _, w4) \<Rightarrow> w4))"

section \<open>Example environments\<close>

text \<open>
  A runner that answers the remote query and the local branch listing with the given
  texts, lists \<open>origin/main\<close> as the only remote branch, writes a progress line to
  the standard error of the fetch, refuses to delete \<open>feature-a\<close> and deletes every
  other branch.
\<close>

definition succeeded :: "jsstring \<Rightarrow> procResult" where
  "succeeded text = \<lparr>err = None, out = text, errout = []\<rparr>"

definition exampleRunner :: "jsstring \<Rightarrow> jsstring \<Rightarrow> runner" where
  "exampleRunner remoteInfo localStdout hist command =
     (if command = gitRemoteShowOrigin then succeeded remoteInfo
      else if command = gitBranch then succeeded localStdout
      else if command = gitFetch then \<lparr>err = None, out = [], errout = js ''From example''\<rparr>
      else if command = gitBranchR
        then succeeded (js ''  origin/HEAD -> origin/main\<newline>  origin/main\<newline>'')
      else if command = js ''git branch -d feature-a''
        then \<lparr>err = Some (js ''Command failed: not fully merged''), out = [], errout = []\<rparr>
      else succeeded [])"

definition remoteInfoMain :: jsstring where
  "remoteInfoMain = js ''* remote origin\<newline>  HEAD branch: main\<newline>  Remote branch:\<newline>''"

definition localOnMain :: jsstring where
  "localOnMain = js ''  feature-a\<newline>  feature-b\<newline>* main\<newline>''"

definition freshProcess :: world where
  "freshProcess = \<lparr>issued = [], lastIndex = 0, console = []\<rparr>"

definition noFlags :: flags where
  "noFlags = (\<lambda>_. JUndefined)"

definition remoteInfoNoHead :: jsstring where
  "remoteInfoNoHead = js ''* remote origin\<newline>  Fetch URL: x\<newline>''"

definition localOnFeature :: jsstring where
  "localOnFeature = js ''* feature-a\<newline>  main\<newline>''"

definition localNoMarker :: jsstring where
  "localNoMarker = js ''  feature-a\<newline>  main\<newline>''"

text \<open>A remote text in which the words of the head line stand on three lines.\<close>

definition remoteInfoBroken :: jsstring where
  "remoteInfoBroken = js ''* remote origin\<newline>  HEAD\<newline>branch:\<newline>main\<newline>''"

section \<open>Facts about strings\<close>

lemma endsWith_iff_suffix: "endsWith s t \<longleftrightarrow> suffix t s"
proof
  assume "endsWith s t"
  then have "s = take (length s - length t) s @ t"
    by (metis append_take_drop_id endsWith_def)
  then show "suffix t s" by (rule suffixI)
next
  assume "suffix t s"
  then obtain zs where "s = zs @ t" by (auto simp: suffix_def)
  then show "endsWith s t" by (simp add: endsWith_def)
qed

lemma includes_js_single: "includes_js s [c] \<longleftrightarrow> c \<in> set s"
  by (induction s) auto

text \<open>
  \<open>split_nl\<close> is \<open>split('\n')\<close>: the pieces hold no line feed, and joining them with
  line feeds gives the input back.
\<close>

lemma split_nl_nonempty: "split_nl s \<noteq> []"
  by (induction s) (auto split: list.splits)

lemma split_nl_no_newline: "l \<in> set (split_nl s) \<Longrightarrow> 0x0A \<notin> set l"
  by (induction s arbitrary: l) (auto split: list.splits if_splits)

lemma split_nl_join: "concat (map (\<lambda>l. 0x0A # l) (split_nl s)) = 0x0A # s"
proof (induction s)
  case Nil
  show ?case by simp
next
  case (Cons c s)
  obtain l ls where "split_nl s = l # ls"
    using split_nl_nonempty [of s] by (cases "split_nl s") auto
  with Cons show ?case by auto
qed

section \<open>The branch list parser\<close>

text \<open>
  Claim C7. For every input string, no token returned by \<open>sanitizeBranchOutput\<close> is empty
  and no token holds a code unit that \<open>\s\<close> matches; the tokens are the lines of the
  input, in order, with those code units removed and the empty results dropped; the
  empty input gives no token.
\<close>

theorem sanitizeBranchOutput_tokens:
  "(\<forall>t \<in> set (sanitizeBranchOutput output). t \<noteq> [] \<and> (\<forall>c \<in> set t. \<not> isSpace c))
   \<and> sanitizeBranchOutput output =
       [t \<leftarrow> map (filter (\<lambda>c. \<not> isSpace c)) (split_nl output). t \<noteq> []]
   \<and> sanitizeBranchOutput [] = []"
  by (auto simp: sanitizeBranchOutput_def)

theorem sanitizeBranchOutput_tokens_witness:
  "sanitizeBranchOutput (js ''* main\<newline>\<newline>  feature-a \<newline>'') = [js ''*main'', js ''feature-a'']
   \<and> js ''*main'' \<noteq> [] \<and> list_all (\<lambda>c. \<not> isSpace c) (js ''*main'')"
proof -
  have m: "sanitizeBranchOutput (js ''* main\<newline>\<newline>  feature-a \<newline>'')
             = [js ''*main'', js ''feature-a'']"
    by (simp add: sanitizeBranchOutput_def js_def isSpace_def)
  from sanitizeBranchOutput_tokens [of "js ''* main\<newline>\<newline>  feature-a \<newline>''"] m
  show ?thesis by (simp add: list_all_iff)
qed

section \<open>The branch diff\<close>

text \<open>
  Claim C1. \<open>branchesToDelete\<close> keeps a local token exactly when no remote name ends
  with it and it is not \<open>*\<close> followed by the main branch name, in the order of the
  local listing; the two examples of the specification evaluate as stated.
\<close>

theorem branchesToDelete_spec:
  "branchesToDelete localBranches remoteBranches (JStr mainBranch) =
     [b \<leftarrow> localBranches. \<not> (\<exists>r \<in> set remoteBranches. suffix b r) \<and> b \<noteq> star # mainBranch]
   \<and> branchesToDelete [js ''*main'', js ''feature-a'', js ''feature-b''] [js ''origin/main'']
        (JStr (js ''main'')) = [js ''feature-a'', js ''feature-b'']
   \<and> branchesToDelete [js ''*main'', js ''feature-a'', js ''feature-b'']
        [js ''origin/main'', js ''origin/feature-a''] (JStr (js ''main'')) = [js ''feature-b'']"
proof (intro conjI)
  show "branchesToDelete localBranches remoteBranches (JStr mainBranch) =
     [b \<leftarrow> localBranches. \<not> (\<exists>r \<in> set remoteBranches. suffix b r) \<and> b \<noteq> star # mainBranch]"
    by (simp add: branchesToDelete_def list_ex_iff endsWith_iff_suffix)
  show "branchesToDelete [js ''*main'', js ''feature-a'', js ''feature-b''] [js ''origin/main'']
        (JStr (js ''main'')) = [js ''feature-a'', js ''feature-b'']"
    by (simp add: branchesToDelete_def endsWith_def js_def star_def)
  show "branchesToDelete [js ''*main'', js ''feature-a'', js ''feature-b'']
        [js ''origin/main'', js ''origin/feature-a''] (JStr (js ''main'')) = [js ''feature-b'']"
    by (simp add: branchesToDelete_def endsWith_def js_def star_def)
qed

theorem branchesToDelete_spec_witness:
  "branchesToDelete [js ''*main'', js ''a'', js ''b''] [js ''o/main'', js ''o/a'']
     (JStr (js ''main'')) = [js ''b'']"
proof -
  have "[b \<leftarrow> [js ''*main'', js ''a'', js ''b''].
          \<not> (\<exists>r \<in> set [js ''o/main'', js ''o/a'']. suffix b r) \<and> b \<noteq> star # js ''main'']
        = [js ''b'']"
    by (simp add: js_def star_def suffix_Cons)
  with branchesToDelete_spec [of "[js ''*main'', js ''a'', js ''b'']"
         "[js ''o/main'', js ''o/a'']" "js ''main''"]
  show ?thesis by simp
qed

section \<open>What each operation does to the process state\<close>

lemma log_fields [simp]:
  "issued (log e w) = issued w" "lastIndex (log e w) = lastIndex w"
  "console (log e w) = console w @ [e]"
  by (simp_all add: log_def)

lemma exec_world:
  "exec sh command ig w = (r, w') \<Longrightarrow> w' = w\<lparr>issued := issued w @ [command]\<rparr>"
  by (auto simp: exec_def Let_def split: option.splits if_splits)

lemma exec_snd: "snd (exec sh command ig w) = w\<lparr>issued := issued w @ [command]\<rparr>"
  by (cases "exec sh command ig w") (auto dest: exec_world)

lemma exec_fst_issued:
  "issued w = issued w' \<Longrightarrow> fst (exec sh c ig w) = fst (exec sh c ig w')"
  by (simp add: exec_def Let_def split: option.splits)

lemma regexExec_world:
  "regexExec text w = (r, w') \<Longrightarrow> issued w' = issued w \<and> console w' = console w"
  by (auto simp: regexExec_def split: if_splits option.splits)

lemma getActiveFlagsStep_world:
  "getActiveFlagsStep args (fl, w) ai = (fl', w') \<Longrightarrow>
     issued w' = issued w \<and> lastIndex w' = lastIndex w"
  by (auto simp: getActiveFlagsStep_def Let_def split: prod.splits option.splits)

lemma getActiveFlagsStep_flags:
  "fst (getActiveFlagsStep args (fl, w) ai) = fst (getActiveFlagsStep args (fl, w') ai)"
  by (auto simp: getActiveFlagsStep_def Let_def split: prod.splits option.splits)

lemma foldl_getActiveFlagsStep:
  "issued (snd (foldl (getActiveFlagsStep args) (fl, w) xs)) = issued w
   \<and> lastIndex (snd (foldl (getActiveFlagsStep args) (fl, w) xs)) = lastIndex w
   \<and> fst (foldl (getActiveFlagsStep args) (fl, w) xs)
       = fst (foldl (getActiveFlagsStep args) (fl, w') xs)"
proof (induction xs arbitrary: fl w w')
  case Nil
  show ?case by simp
next
  case (Cons x xs)
  obtain fl1 w1 where s1: "getActiveFlagsStep args (fl, w) x = (fl1, w1)" by force
  obtain fl2 w2 where s2: "getActiveFlagsStep args (fl, w') x = (fl2, w2)" by force
  have "fl1 = fl2" using getActiveFlagsStep_flags [of args fl w x w'] s1 s2 by simp
  moreover have "issued w1 = issued w" "lastIndex w1 = lastIndex w"
    using getActiveFlagsStep_world [OF s1] by simp_all
  ultimately show ?case using Cons.IH [of fl1 w1 w2] s1 s2 by simp
qed

text \<open>
  Parsing the flags issues no command and leaves the regular expression alone, and the
  flag set it builds depends on the arguments only.
\<close>

lemma getActiveFlags_issued: "issued (snd (getActiveFlags args w)) = issued w"
  by (simp add: getActiveFlags_def foldl_getActiveFlagsStep)

lemma getActiveFlags_lastIndex: "lastIndex (snd (getActiveFlags args w)) = lastIndex w"
  by (simp add: getActiveFlags_def foldl_getActiveFlagsStep)

lemma getActiveFlags_flags: "fst (getActiveFlags args w) = fst (getActiveFlags args w')"
  unfolding getActiveFlags_def using foldl_getActiveFlagsStep [of args _ w _ w'] by blast

lemma getMainBranch_issued:
  "issued (snd (getMainBranch sh flags w)) =
     (if truthy (flags HEAD) then issued w else issued w @ [gitRemoteShowOrigin])"
  by (auto simp: getMainBranch_def split: prod.splits sum.splits option.splits
           dest!: exec_world regexExec_world)

lemma getMainBranch_world:
  "getMainBranch sh flags w = (r, w1) \<Longrightarrow>
     issued w1 = (if truthy (flags HEAD) then issued w else issued w @ [gitRemoteShowOrigin])"
  using getMainBranch_issued [of sh flags w] by simp

section \<open>The pattern when nothing matches\<close>

lemma matchHere_Nil: "matchHere [] = None"
  by (simp add: matchHere_def headBranchAtoms_def js_def)

lemma matchHere_starts_with_H: "matchHere (c # s) = Some capture \<Longrightarrow> c = 0x48"
  by (auto simp: matchHere_def headBranchAtoms_def js_def split: option.splits if_splits)

lemma no_H_no_match:
  assumes "0x48 \<notin> set text"
  shows "matchHere (drop i text) = None"
proof (cases "drop i text")
  case Nil
  then show ?thesis by (simp add: matchHere_Nil)
next
  case (Cons c s)
  then have "c \<in> set text" by (metis in_set_dropD list.set_intros(1))
  with assms have "c \<noteq> 0x48" by auto
  with Cons show ?thesis using matchHere_starts_with_H [of c s] by (cases "matchHere (c # s)") auto
qed

lemma scanFrom_no_match:
  "(\<forall>k. matchHere (drop k s) = None) \<Longrightarrow> scanFrom s i = None"
proof (induction s arbitrary: i)
  case Nil
  show ?case by simp
next
  case (Cons c s)
  have here: "matchHere (c # s) = None" using Cons.prems [rule_format, of 0] by simp
  have "\<forall>k. matchHere (drop k s) = None"
  proof
    fix k
    show "matchHere (drop k s) = None" using Cons.prems [rule_format, of "Suc k"] by simp
  qed
  then have "scanFrom s (Suc i) = None" by (rule Cons.IH)
  with here show ?case by simp
qed

lemma regexExec_no_match:
  assumes "\<forall>i. matchHere (drop i text) = None"
  shows "regexExec text w = (None, w\<lparr>lastIndex := 0\<rparr>)"
proof -
  have "\<forall>k. matchHere (drop k (drop (lastIndex w) text)) = None"
    using assms by simp
  then have "scanFrom (drop (lastIndex w) text) (lastIndex w) = None"
    by (rule scanFrom_no_match)
  then show ?thesis by (simp add: regexExec_def)
qed

section \<open>The deletion pipeline\<close>

lemma deleteCommand_not_query:
  "deleteCommand fl b \<noteq> gitRemoteShowOrigin" "deleteCommand fl b \<noteq> gitBranch"
  "deleteCommand fl b \<noteq> gitFetch" "deleteCommand fl b \<noteq> gitBranchR"
  by (simp_all add: deleteCommand_def gitRemoteShowOrigin_def gitBranch_def gitFetch_def
        gitBranchR_def js_def)

lemma deleteStep_dry:
  "truthy (flags DRY_RUN) \<Longrightarrow>
     deleteStep sh flags m (n, w) b =
       (n - 1, w\<lparr>console := console w @ [LogDeleting b, LogDryRun (deleteCommand flags b)]\<rparr>)"
  by (simp add: deleteStep_def Let_def log_def)

lemma foldl_deleteStep_dry:
  "truthy (flags DRY_RUN) \<Longrightarrow>
     foldl (deleteStep sh flags m) (n, w) bs =
       (n - int (length bs),
        w\<lparr>console := console w
             @ concat (map (\<lambda>b. [LogDeleting b, LogDryRun (deleteCommand flags b)]) bs)\<rparr>)"
  by (induction bs arbitrary: n w) (simp_all add: deleteStep_dry)

lemma deletionPipeline_dry:
  "truthy (flags DRY_RUN) \<Longrightarrow>
     deletionPipeline sh flags m bs w =
       w\<lparr>console := console w
            @ concat (map (\<lambda>b. [LogDeleting b, LogDryRun (deleteCommand flags b)]) bs)
            @ [LogDeleted 0]\<rparr>"
  by (simp add: deletionPipeline_def foldl_deleteStep_dry log_def)

lemma deleteStep_live:
  assumes "\<not> truthy (flags DRY_RUN)"
  shows "issued (snd (deleteStep sh flags m (n, w) b)) = issued w @ [deleteCommand flags b]"
    and "fst (deleteStep sh flags m (n, w) b) =
           (if isl (fst (exec sh (deleteCommand flags b) False w)) then n - 1 else n)"
  using assms
  by (auto simp: deleteStep_def Let_def exec_def split: prod.splits sum.splits option.splits)

text \<open>
  Without dry run every candidate's command is issued, in order, whatever the runner
  answers; the counter loses one for each command whose promise is rejected. The
  \<open>i\<close>-th command runs after the commands of the candidates before it.
\<close>

lemma foldl_deleteStep_live:
  assumes live: "\<not> truthy (flags DRY_RUN)"
  shows "issued (snd (foldl (deleteStep sh flags m) (n, w) bs))
           = issued w @ map (deleteCommand flags) bs
       \<and> fst (foldl (deleteStep sh flags m) (n, w) bs)
           = n - int (length [i \<leftarrow> [0..<length bs].
                 isl (fst (exec sh (deleteCommand flags (bs ! i)) False
                   (w\<lparr>issued := issued w @ map (deleteCommand flags) (take i bs)\<rparr>)))])"
proof (induction bs rule: rev_induct)
  case Nil
  show ?case by simp
next
  case (snoc b bs)
  let ?dc = "deleteCommand flags"
  let ?fail = "\<lambda>cs i. isl (fst (exec sh (?dc (cs ! i)) False
                   (w\<lparr>issued := issued w @ map ?dc (take i cs)\<rparr>)))"
  obtain n' w' where acc: "foldl (deleteStep sh flags m) (n, w) bs = (n', w')" by force
  from snoc.IH acc have iss: "issued w' = issued w @ map ?dc bs"
    and cnt: "n' = n - int (length (filter (?fail bs) [0..<length bs]))" by simp_all
  have same: "filter (?fail (bs @ [b])) [0..<length bs] = filter (?fail bs) [0..<length bs]"
    by (rule filter_cong) (simp_all add: nth_append)
  have ex: "fst (exec sh (?dc b) False w')
              = fst (exec sh (?dc b) False (w\<lparr>issued := issued w @ map ?dc bs\<rparr>))"
    by (rule exec_fst_issued) (simp add: iss)
  have last_fail: "?fail (bs @ [b]) (length bs) = isl (fst (exec sh (?dc b) False w'))"
    by (simp add: ex)
  have step: "foldl (deleteStep sh flags m) (n, w) (bs @ [b]) = deleteStep sh flags m (n', w') b"
    by (simp add: acc)
  have "issued (snd (deleteStep sh flags m (n', w') b)) = issued w @ map ?dc (bs @ [b])"
    using deleteStep_live(1) [of flags sh m n' w' b] live iss by simp
  moreover have "fst (deleteStep sh flags m (n', w') b)
      = n - int (length (filter (?fail (bs @ [b])) [0..<length (bs @ [b])]))"
    using deleteStep_live(2) [of flags sh m n' w' b] live cnt same last_fail by simp
  ultimately show ?case using step by simp
qed

lemma count_successes:
  "int (length xs) - int (length (filter P xs)) = int (length (filter (\<lambda>x. \<not> P x) xs))"
  using sum_length_filter_compl [of P xs] by simp

lemma deletionPipeline_live:
  assumes live: "\<not> truthy (flags DRY_RUN)"
  shows "issued (deletionPipeline sh flags m bs w) = issued w @ map (deleteCommand flags) bs"
    and "last (console (deletionPipeline sh flags m bs w)) =
           LogDeleted (int (length [i \<leftarrow> [0..<length bs].
                 \<not> isl (fst (exec sh (deleteCommand flags (bs ! i)) False
                   (w\<lparr>issued := issued w @ map (deleteCommand flags) (take i bs)\<rparr>)))]))"
proof -
  obtain n' w' where acc: "foldl (deleteStep sh flags m) (int (length bs), w) bs = (n', w')"
    by force
  from foldl_deleteStep_live [of flags sh m "int (length bs)" w bs] live acc
  have iss: "issued w' = issued w @ map (deleteCommand flags) bs"
    and cnt: "n' = int (length bs) - int (length [i \<leftarrow> [0..<length bs].
                 isl (fst (exec sh (deleteCommand flags (bs ! i)) False
                   (w\<lparr>issued := issued w @ map (deleteCommand flags) (take i bs)\<rparr>)))])"
    by simp_all
  from iss acc show "issued (deletionPipeline sh flags m bs w)
      = issued w @ map (deleteCommand flags) bs"
    by (simp add: deletionPipeline_def)
  have "n' = int (length [i \<leftarrow> [0..<length bs].
                 \<not> isl (fst (exec sh (deleteCommand flags (bs ! i)) False
                   (w\<lparr>issued := issued w @ map (deleteCommand flags) (take i bs)\<rparr>)))])"
    using cnt count_successes [of "[0..<length bs]"] by simp
  with acc show "last (console (deletionPipeline sh flags m bs w)) =
           LogDeleted (int (length [i \<leftarrow> [0..<length bs].
                 \<not> isl (fst (exec sh (deleteCommand flags (bs ! i)) False
                   (w\<lparr>issued := issued w @ map (deleteCommand flags) (take i bs)\<rparr>)))]))"
    by (simp add: deletionPipeline_def)
qed

section \<open>The run\<close>

lemma cleanupTry_dry_issued:
  assumes dry: "truthy (flags DRY_RUN)"
  shows "\<exists>cs. issued (snd (cleanupTry sh flags w)) = issued w @ cs
           \<and> set cs \<subseteq> {gitRemoteShowOrigin, gitBranch, gitFetch, gitBranchR}"
proof -
  have pipe: "\<And>m bs w'. issued (deletionPipeline sh flags m bs w') = issued w'"
    using dry by (simp add: deletionPipeline_dry)
  show ?thesis
    unfolding cleanupTry_def Let_def
    by (auto simp: pipe split: prod.splits sum.splits
          dest!: exec_world getMainBranch_world)
qed

lemma cleanupTry_not_on_main:
  assumes "getMainBranch sh flags w = (Inr m, w1)" and "truthy m"
    and "exec sh gitBranch False w1 = (Inr localStdout, w2)"
    and "currentBranch (sanitizeBranchOutput localStdout) \<noteq> Some (star # toStr m)"
  shows "cleanupTry sh flags w = (Inr (), log (LogNotOnMain (toStr m)) w2)"
  using assms by (simp add: cleanupTry_def)

lemma cleanupTry_on_main:
  assumes "getMainBranch sh flags w = (Inr m, w1)" and "truthy m"
    and "exec sh gitBranch False w1 = (Inr localStdout, w2)"
    and "currentBranch (sanitizeBranchOutput localStdout) = Some (star # toStr m)"
  shows "\<exists>cs. issued (snd (cleanupTry sh flags w)) = issued w1 @ [gitBranch, gitFetch] @ cs"
proof -
  have pipe: "\<And>bs w'. \<exists>cs. issued (deletionPipeline sh flags m bs w') = issued w' @ cs"
  proof -
    fix bs w'
    show "\<exists>cs. issued (deletionPipeline sh flags m bs w') = issued w' @ cs"
    proof (cases "truthy (flags DRY_RUN)")
      case True
      then show ?thesis by (simp add: deletionPipeline_dry)
    next
      case False
      then show ?thesis using deletionPipeline_live(1) [of flags sh m bs w'] by blast
    qed
  qed
  from assms(3) have w2: "issued w2 = issued w1 @ [gitBranch]" by (auto dest: exec_world)
  obtain r3 w3 where e3: "exec sh gitFetch True w2 = (r3, w3)" by force
  then have w3: "issued w3 = issued w1 @ [gitBranch, gitFetch]"
    using w2 by (auto dest: exec_world)
  show ?thesis
  proof (cases r3)
    case (Inl e)
    with assms e3 w3 show ?thesis by (simp add: cleanupTry_def)
  next
    case (Inr x)
    obtain r4 w4 where e4: "exec sh gitBranchR False w3 = (r4, w4)" by force
    then have w4: "issued w4 = issued w1 @ [gitBranch, gitFetch] @ [gitBranchR]"
      using w3 by (auto dest: exec_world)
    show ?thesis
    proof (cases r4)
      case (Inl e)
      with assms e3 Inr e4 w4 show ?thesis by (simp add: cleanupTry_def)
    next
      case r4: (Inr remoteStdout)
      let ?bs = "branchesToDelete (sanitizeBranchOutput localStdout)
                   (sanitizeBranchOutput remoteStdout) m"
      from pipe [of ?bs w4] obtain cs where
        "issued (deletionPipeline sh flags m ?bs w4) = issued w4 @ cs" by blast
      with assms e3 Inr e4 r4 w4 show ?thesis by (simp add: cleanupTry_def Let_def)
    qed
  qed
qed

lemma cleanupTry_no_head:
  assumes "\<not> truthy (flags HEAD)"
    and "exec sh gitRemoteShowOrigin False w = (Inr remoteInfo, w1)"
    and "\<forall>i. matchHere (drop i remoteInfo) = None"
  shows "getMainBranch sh flags w = (Inr JNull, log ErrorCannotFindHead (w1\<lparr>lastIndex := 0\<rparr>))"
    and "cleanupTry sh flags w = (Inr (), log ErrorCannotFindHead (w1\<lparr>lastIndex := 0\<rparr>))"
proof -
  show g: "getMainBranch sh flags w
             = (Inr JNull, log ErrorCannotFindHead (w1\<lparr>lastIndex := 0\<rparr>))"
    using assms by (simp add: getMainBranch_def regexExec_no_match)
  show "cleanupTry sh flags w = (Inr (), log ErrorCannotFindHead (w1\<lparr>lastIndex := 0\<rparr>))"
    by (simp add: cleanupTry_def g)
qed

text \<open>
  The exported function issues the commands of the \<open>try\<close> block and no other, and none
  at all under the help flag.
\<close>

lemma gitCleanup_issued:
  "\<exists>w3. issued w3 = issued w \<and> lastIndex w3 = lastIndex w \<and>
     issued (gitCleanup sh args w) =
       (if truthy (fst (getActiveFlags args w) HELP) then issued w
        else issued (snd (cleanupTry sh (fst (getActiveFlags args w)) w3)))"
proof -
  let ?w2 = "if args \<noteq> [] then log (LogWithArguments args) (log LogStarting w)
             else log LogStarting w"
  obtain fl w3 where g: "getActiveFlags args ?w2 = (fl, w3)" by force
  have fl: "fl = fst (getActiveFlags args w)"
    using getActiveFlags_flags [of args ?w2 w] g by simp
  have w3: "issued w3 = issued w" "lastIndex w3 = lastIndex w"
    using getActiveFlags_issued [of args ?w2] getActiveFlags_lastIndex [of args ?w2] g
    by simp_all
  have "issued (gitCleanup sh args w) =
       (if truthy (fl HELP) then issued w else issued (snd (cleanupTry sh fl w3)))"
    using g w3 by (auto simp: gitCleanup_def Let_def split: prod.splits sum.splits)
  with fl w3 show ?thesis by blast
qed

lemma query_not_deleteCommand:
  assumes "c \<in> {gitRemoteShowOrigin, gitBranch, gitFetch, gitBranchR}"
  shows "c \<noteq> deleteCommand fl b"
proof
  assume "c = deleteCommand fl b"
  with assms have "deleteCommand fl b = gitRemoteShowOrigin \<or> deleteCommand fl b = gitBranch
      \<or> deleteCommand fl b = gitFetch \<or> deleteCommand fl b = gitBranchR"
    by simp
  then show False using deleteCommand_not_query [of fl b] by simp
qed

lemma cleanupTry_dry_no_delete:
  assumes "truthy (flags DRY_RUN)"
  shows "\<exists>cs. issued (snd (cleanupTry sh flags w)) = issued w @ cs
              \<and> (\<forall>c \<in> set cs. \<forall>fl b. c \<noteq> deleteCommand fl b)"
proof -
  from cleanupTry_dry_issued [of flags sh w] assms obtain cs where
    cs: "issued (snd (cleanupTry sh flags w)) = issued w @ cs"
    and sub: "set cs \<subseteq> {gitRemoteShowOrigin, gitBranch, gitFetch, gitBranchR}"
    by blast
  have "\<forall>c \<in> set cs. \<forall>fl b. c \<noteq> deleteCommand fl b"
  proof (intro ballI allI)
    fix c fl b
    assume "c \<in> set cs"
    with sub have "c \<in> {gitRemoteShowOrigin, gitBranch, gitFetch, gitBranchR}" by blast
    then show "c \<noteq> deleteCommand fl b" by (rule query_not_deleteCommand)
  qed
  with cs show ?thesis by blast
qed

lemma gitCleanup_dry_no_delete:
  assumes "truthy (fst (getActiveFlags args w) DRY_RUN)"
  shows "\<exists>cs. issued (gitCleanup sh args w) = issued w @ cs
              \<and> (\<forall>c \<in> set cs. \<forall>fl b. c \<noteq> deleteCommand fl b)"
proof -
  let ?flags = "fst (getActiveFlags args w)"
  from gitCleanup_issued [of w sh args] obtain w3 where w3: "issued w3 = issued w"
    and run: "issued (gitCleanup sh args w) =
       (if truthy (?flags HELP) then issued w else issued (snd (cleanupTry sh ?flags w3)))"
    by blast
  show ?thesis
  proof (cases "truthy (?flags HELP)")
    case True
    with run have "issued (gitCleanup sh args w) = issued w @ []" by simp
    moreover have "\<forall>c \<in> set ([] :: jsstring list). \<forall>fl b. c \<noteq> deleteCommand fl b" by simp
    ultimately show ?thesis by blast
  next
    case False
    from cleanupTry_dry_no_delete [of ?flags sh w3] assms obtain cs where
      "issued (snd (cleanupTry sh ?flags w3)) = issued w3 @ cs"
      "\<forall>c \<in> set cs. \<forall>fl b. c \<noteq> deleteCommand fl b" by blast
    with run False w3 have "issued (gitCleanup sh args w) = issued w @ cs
        \<and> (\<forall>c \<in> set cs. \<forall>fl b. c \<noteq> deleteCommand fl b)" by simp
    then show ?thesis by blast
  qed
qed

section \<open>Dry run, failure isolation and the delete variant\<close>

text \<open>
  Claim C2. With the dry-run flag set, the deletion pipeline hands no command to the
  runner for any candidate list (the process state changes in its console only) and the
  count it reports last is 0; in the whole run, from the \<open>try\<close> block as from the
  exported function, no command issued is a delete command.
\<close>

theorem dry_run_issues_no_deletion:
  assumes "truthy (flags DRY_RUN)"
  shows "deletionPipeline sh flags m bs w =
           w\<lparr>console := console w
                @ concat (map (\<lambda>b. [LogDeleting b, LogDryRun (deleteCommand flags b)]) bs)
                @ [LogDeleted 0]\<rparr>
       \<and> (\<exists>cs. issued (snd (cleanupTry sh flags w)) = issued w @ cs
              \<and> (\<forall>c \<in> set cs. \<forall>fl b. c \<noteq> deleteCommand fl b))
       \<and> (flags = fst (getActiveFlags args w) \<longrightarrow>
            (\<exists>cs. issued (gitCleanup sh args w) = issued w @ cs
              \<and> (\<forall>c \<in> set cs. \<forall>fl b. c \<noteq> deleteCommand fl b)))"
proof (intro conjI impI)
  show "deletionPipeline sh flags m bs w =
           w\<lparr>console := console w
                @ concat (map (\<lambda>b. [LogDeleting b, LogDryRun (deleteCommand flags b)]) bs)
                @ [LogDeleted 0]\<rparr>"
    using assms by (rule deletionPipeline_dry)
  show "\<exists>cs. issued (snd (cleanupTry sh flags w)) = issued w @ cs
              \<and> (\<forall>c \<in> set cs. \<forall>fl b. c \<noteq> deleteCommand fl b)"
    using assms by (rule cleanupTry_dry_no_delete)
  assume fl: "flags = fst (getActiveFlags args w)"
  with assms have "truthy (fst (getActiveFlags args w) DRY_RUN)" by simp
  then show "\<exists>cs. issued (gitCleanup sh args w) = issued w @ cs
              \<and> (\<forall>c \<in> set cs. \<forall>fl b. c \<noteq> deleteCommand fl b)"
    by (rule gitCleanup_dry_no_delete)
qed

theorem dry_run_issues_no_deletion_witness:
  "truthy ((noFlags(DRY_RUN := JTrue)) DRY_RUN)
   \<and> deletionPipeline (exampleRunner remoteInfoMain localOnMain) (noFlags(DRY_RUN := JTrue))
        (JStr (js ''main'')) [js ''feature-a'', js ''feature-b''] freshProcess =
      freshProcess\<lparr>console :=
        [LogDeleting (js ''feature-a''), LogDryRun (js ''git branch -d feature-a''),
         LogDeleting (js ''feature-b''), LogDryRun (js ''git branch -d feature-b''),
         LogDeleted 0]\<rparr>"
proof -
  have h: "truthy ((noFlags(DRY_RUN := JTrue)) DRY_RUN)" by simp
  have c: "deleteCommand (noFlags(DRY_RUN := JTrue)) (js ''feature-a'') = js ''git branch -d feature-a''"
    "deleteCommand (noFlags(DRY_RUN := JTrue)) (js ''feature-b'') = js ''git branch -d feature-b''"
    by (simp_all add: deleteCommand_def noFlags_def js_def)
  have e: "console freshProcess = []" by (simp add: freshProcess_def)
  note t = dry_run_issues_no_deletion [of "noFlags(DRY_RUN := JTrue)"
      "exampleRunner remoteInfoMain localOnMain" "JStr (js ''main'')"
      "[js ''feature-a'', js ''feature-b'']" freshProcess "[]", OF h, THEN conjunct1]
  have eq: "deletionPipeline (exampleRunner remoteInfoMain localOnMain) (noFlags(DRY_RUN := JTrue))
        (JStr (js ''main'')) [js ''feature-a'', js ''feature-b''] freshProcess =
      freshProcess\<lparr>console :=
        [LogDeleting (js ''feature-a''), LogDryRun (js ''git branch -d feature-a''),
         LogDeleting (js ''feature-b''), LogDryRun (js ''git branch -d feature-b''),
         LogDeleted 0]\<rparr>"
    unfolding t by (simp only: c e list.map concat.simps append.simps)
  show ?thesis by (rule conjI [OF h eq])
qed

text \<open>
  Claim C3. Without dry run, the deletion pipeline issues the delete command of every
  candidate, in order, whatever the runner answers to the commands before it, and the
  count it reports last is the number of candidates whose command was resolved (the
  \<open>i\<close>-th command being run after those of the candidates before it). Every command
  is taken to call back, as the runner of the model does.
\<close>

theorem deletion_failure_isolated:
  assumes "\<not> truthy (flags DRY_RUN)"
  shows "issued (deletionPipeline sh flags m bs w) = issued w @ map (deleteCommand flags) bs
       \<and> last (console (deletionPipeline sh flags m bs w)) =
           LogDeleted (int (length [i \<leftarrow> [0..<length bs].
                 \<not> isl (fst (exec sh (deleteCommand flags (bs ! i)) False
                   (w\<lparr>issued := issued w @ map (deleteCommand flags) (take i bs)\<rparr>)))]))"
  using deletionPipeline_live [of flags sh m bs w] assms by simp

theorem deletion_failure_isolated_witness:
  "\<not> truthy (noFlags DRY_RUN)
   \<and> issued (deletionPipeline (exampleRunner remoteInfoMain localOnMain) noFlags
        (JStr (js ''main'')) [js ''feature-a'', js ''feature-b''] freshProcess)
      = [js ''git branch -d feature-a'', js ''git branch -d feature-b'']
   \<and> last (console (deletionPipeline (exampleRunner remoteInfoMain localOnMain) noFlags
        (JStr (js ''main'')) [js ''feature-a'', js ''feature-b''] freshProcess))
      = LogDeleted 1"
proof -
  have h: "\<not> truthy (noFlags DRY_RUN)" by (simp add: noFlags_def)
  have c: "deleteCommand noFlags (js ''feature-a'') = js ''git branch -d feature-a''"
    "deleteCommand noFlags (js ''feature-b'') = js ''git branch -d feature-b''"
    by (simp_all add: deleteCommand_def noFlags_def js_def)
  have a: "isl (fst (exec (exampleRunner remoteInfoMain localOnMain)
             (js ''git branch -d feature-a'') False w))" for w
    by (simp add: exec_def exampleRunner_def Let_def js_def gitRemoteShowOrigin_def
          gitBranch_def gitFetch_def gitBranchR_def)
  have b: "\<not> isl (fst (exec (exampleRunner remoteInfoMain localOnMain)
             (js ''git branch -d feature-b'') False w))" for w
    by (simp add: exec_def exampleRunner_def Let_def js_def gitRemoteShowOrigin_def
          gitBranch_def gitFetch_def gitBranchR_def succeeded_def)
  have up: "[0..<2] = [0, Suc 0]" by (simp add: upt_rec)
  from deletion_failure_isolated [of noFlags "exampleRunner remoteInfoMain localOnMain"
      "JStr (js ''main'')" "[js ''feature-a'', js ''feature-b'']" freshProcess] h
  show ?thesis by (simp add: c a b up freshProcess_def)
qed


text \<open>
  Claim C8. The delete command of a candidate is \<open>git branch -D\<close> followed by the
  candidate when the force flag is set and \<open>git branch -d\<close> followed by it when not,
  and these are the commands the pipeline issues, one for each candidate.
\<close>

theorem deleteCommand_variant:
  "deleteCommand flags branch =
     (if truthy (flags FORCE) then js ''git branch -D '' @ branch
      else js ''git branch -d '' @ branch)
   \<and> (\<not> truthy (flags DRY_RUN) \<longrightarrow>
        issued (deletionPipeline sh flags m bs w) =
          issued w @ map (\<lambda>b. (if truthy (flags FORCE) then js ''git branch -D ''
                               else js ''git branch -d '') @ b) bs)"
proof -
  have cmd: "deleteCommand flags b =
     (if truthy (flags FORCE) then js ''git branch -D '' else js ''git branch -d '') @ b" for b
    by (simp add: deleteCommand_def js_def)
  then have "map (deleteCommand flags) bs =
      map (\<lambda>b. (if truthy (flags FORCE) then js ''git branch -D ''
                               else js ''git branch -d '') @ b) bs"
    by simp
  with deletionPipeline_live(1) [of flags sh m bs w] cmd [of branch] show ?thesis by simp
qed

theorem deleteCommand_variant_witness:
  "deleteCommand (noFlags(FORCE := JTrue)) (js ''feature-a'') = js ''git branch -D feature-a''
   \<and> deleteCommand noFlags (js ''feature-a'') = js ''git branch -d feature-a''
   \<and> issued (deletionPipeline (exampleRunner remoteInfoMain localOnMain)
        (noFlags(FORCE := JTrue)) (JStr (js ''main'')) [js ''feature-a''] freshProcess)
      = [js ''git branch -D feature-a'']"
proof -
  have h: "\<not> truthy ((noFlags(FORCE := JTrue)) DRY_RUN)" by (simp add: noFlags_def)
  from deleteCommand_variant [of "noFlags(FORCE := JTrue)" "js ''feature-a''"
      "exampleRunner remoteInfoMain localOnMain" "JStr (js ''main'')" "[js ''feature-a'']"
      freshProcess]
    deleteCommand_variant [of noFlags "js ''feature-a''"
      "exampleRunner remoteInfoMain localOnMain" "JStr (js ''main'')" "[]" freshProcess] h
  show ?thesis by (simp add: noFlags_def js_def freshProcess_def)
qed

section \<open>Resolution of the main branch\<close>

text \<open>
  Claim C4, as the code has it. When the head flag holds no override and the remote
  query answers with a text in which the pattern of \<open>HEAD_BRANCH_REGEX\<close>,
  \<open>HEAD\sbranch:\s(.+)\<close>, matches at no position of the whole text,
  \<open>getMainBranch\<close> returns null and the run ends there: the remote query is the only
  command issued, so no fetch, no branch listing and no delete command follow. This
  holds whatever \<open>lastIndex\<close> the regular expression was left with.
\<close>

theorem resolution_failure_stops_run:
  assumes "\<not> truthy (flags HEAD)"
    and "fst (exec sh gitRemoteShowOrigin False w) = Inr remoteInfo"
    and "\<forall>i. matchHere (drop i remoteInfo) = None"
  shows "fst (getMainBranch sh flags w) = Inr JNull
       \<and> cleanupTry sh flags w =
           (Inr (), log ErrorCannotFindHead
                      (w\<lparr>issued := issued w @ [gitRemoteShowOrigin], lastIndex := 0\<rparr>))
       \<and> (flags = fst (getActiveFlags args w) \<longrightarrow>
            issued (gitCleanup sh args w) =
              (if truthy (flags HELP) then issued w else issued w @ [gitRemoteShowOrigin]))"
proof (intro conjI impI)
  have e: "exec sh gitRemoteShowOrigin False w =
             (Inr remoteInfo, w\<lparr>issued := issued w @ [gitRemoteShowOrigin]\<rparr>)"
    using assms(2) exec_snd [of sh gitRemoteShowOrigin False w]
    by (cases "exec sh gitRemoteShowOrigin False w") simp
  from cleanupTry_no_head(1) [of flags sh w remoteInfo, OF assms(1) e assms(3)]
  show "fst (getMainBranch sh flags w) = Inr JNull" by simp
  from cleanupTry_no_head(2) [of flags sh w remoteInfo, OF assms(1) e assms(3)]
  show "cleanupTry sh flags w =
           (Inr (), log ErrorCannotFindHead
                      (w\<lparr>issued := issued w @ [gitRemoteShowOrigin], lastIndex := 0\<rparr>))" .
  assume fl: "flags = fst (getActiveFlags args w)"
  from gitCleanup_issued [of w sh args] fl obtain w3 where w3: "issued w3 = issued w"
    and run: "issued (gitCleanup sh args w) =
       (if truthy (flags HELP) then issued w else issued (snd (cleanupTry sh flags w3)))"
    by blast
  have "fst (exec sh gitRemoteShowOrigin False w3) = Inr remoteInfo"
    using assms(2) exec_fst_issued [OF w3, of sh gitRemoteShowOrigin False] by simp
  then have e3: "exec sh gitRemoteShowOrigin False w3 =
             (Inr remoteInfo, w3\<lparr>issued := issued w3 @ [gitRemoteShowOrigin]\<rparr>)"
    using exec_snd [of sh gitRemoteShowOrigin False w3]
    by (cases "exec sh gitRemoteShowOrigin False w3") simp
  from cleanupTry_no_head(2) [of flags sh w3 remoteInfo, OF assms(1) e3 assms(3)]
  have "issued (snd (cleanupTry sh flags w3)) = issued w @ [gitRemoteShowOrigin]"
    by (simp add: w3)
  with run show "issued (gitCleanup sh args w) =
              (if truthy (flags HELP) then issued w else issued w @ [gitRemoteShowOrigin])"
    by simp
qed

theorem resolution_failure_stops_run_witness:
  "\<not> truthy (noFlags HEAD)
   \<and> fst (getMainBranch (exampleRunner remoteInfoNoHead localOnMain) noFlags freshProcess)
       = Inr JNull
   \<and> issued (snd (cleanupTry (exampleRunner remoteInfoNoHead localOnMain) noFlags freshProcess))
       = [gitRemoteShowOrigin]"
proof -
  have h1: "\<not> truthy (noFlags HEAD)" by (simp add: noFlags_def)
  have h2: "fst (exec (exampleRunner remoteInfoNoHead localOnMain) gitRemoteShowOrigin False
              freshProcess) = Inr remoteInfoNoHead"
    by (simp add: exec_def exampleRunner_def succeeded_def)
  have "0x48 \<notin> set remoteInfoNoHead" by (simp add: remoteInfoNoHead_def js_def)
  then have h3: "\<forall>i. matchHere (drop i remoteInfoNoHead) = None"
    by (simp add: no_H_no_match)
  note t = resolution_failure_stops_run [of noFlags
      "exampleRunner remoteInfoNoHead localOnMain" freshProcess remoteInfoNoHead "[]",
      OF h1 h2 h3]
  from t have a: "fst (getMainBranch (exampleRunner remoteInfoNoHead localOnMain) noFlags
      freshProcess) = Inr JNull" by (rule conjunct1)
  from t have "cleanupTry (exampleRunner remoteInfoNoHead localOnMain) noFlags freshProcess =
           (Inr (), log ErrorCannotFindHead
              (freshProcess\<lparr>issued := issued freshProcess @ [gitRemoteShowOrigin],
                 lastIndex := 0\<rparr>))"
    by (rule conjunct2 [THEN conjunct1])
  then have b: "issued (snd (cleanupTry (exampleRunner remoteInfoNoHead localOnMain) noFlags
      freshProcess)) = [gitRemoteShowOrigin]"
    by (simp add: freshProcess_def)
  from h1 a b show ?thesis by (intro conjI)
qed

text \<open>
  The claim as stated, with no line of the text matching, fails: \<open>\s\<close> matches a
  line break as well, so a match can run over several lines. In the text below the
  pattern matches in none of the five lines, yet \<open>getMainBranch\<close> resolves
  \<open>main\<close>, and the run goes on to the fetch, the remote listing and the delete
  commands of both stale branches.
\<close>

theorem resolution_across_lines_counterexample:
  "\<not> truthy (noFlags HEAD)
   \<and> split_nl remoteInfoBroken =
       [js ''* remote origin'', js ''  HEAD'', js ''branch:'', js ''main'', []]
   \<and> scanFrom (js ''* remote origin'') 0 = None
   \<and> scanFrom (js ''  HEAD'') 0 = None
   \<and> scanFrom (js ''branch:'') 0 = None
   \<and> scanFrom (js ''main'') 0 = None
   \<and> scanFrom [] 0 = None
   \<and> fst (getMainBranch (exampleRunner remoteInfoBroken localOnMain) noFlags freshProcess)
       = Inr (JStr (js ''main''))
   \<and> issued (gitCleanup (exampleRunner remoteInfoBroken localOnMain) [] freshProcess)
       = [gitRemoteShowOrigin, gitBranch, gitFetch, gitBranchR,
          js ''git branch -d feature-a'', js ''git branch -d feature-b'']"
  by code_simp

section \<open>The check of the checked-out branch\<close>

lemma exec_pair:
  "fst (exec sh command ig w) = r \<Longrightarrow>
     exec sh command ig w = (r, w\<lparr>issued := issued w @ [command]\<rparr>)"
  using exec_snd [of sh command ig w] by (cases "exec sh command ig w") simp

text \<open>
  Claim C5. Let the main branch be resolved to \<open>m\<close> and the local listing have
  succeeded, and let the first token holding the marker \<open>*\<close> be the marker followed by
  \<open>checkedOut\<close>. If \<open>checkedOut\<close> differs from the main branch name the run ends
  after the listing: the notice is logged and no further command is issued. If they are
  equal the run goes on: the fetch is the next command issued.
\<close>

theorem validator_gate:
  assumes "getMainBranch sh flags w = (Inr m, w1)" and "truthy m"
    and "fst (exec sh gitBranch False w1) = Inr localStdout"
    and "currentBranch (sanitizeBranchOutput localStdout) = Some (star # checkedOut)"
  shows "(checkedOut \<noteq> toStr m \<longrightarrow>
            cleanupTry sh flags w =
              (Inr (), log (LogNotOnMain (toStr m)) (w1\<lparr>issued := issued w1 @ [gitBranch]\<rparr>)))
       \<and> (checkedOut = toStr m \<longrightarrow>
            (\<exists>cs. issued (snd (cleanupTry sh flags w)) = issued w1 @ [gitBranch, gitFetch] @ cs))"
proof (intro conjI impI)
  note e = exec_pair [OF assms(3)]
  assume "checkedOut \<noteq> toStr m"
  with assms(4) have "currentBranch (sanitizeBranchOutput localStdout) \<noteq> Some (star # toStr m)"
    by simp
  with assms(1,2) e show "cleanupTry sh flags w =
      (Inr (), log (LogNotOnMain (toStr m)) (w1\<lparr>issued := issued w1 @ [gitBranch]\<rparr>))"
    by (rule cleanupTry_not_on_main)
next
  note e = exec_pair [OF assms(3)]
  assume "checkedOut = toStr m"
  with assms(4) have "currentBranch (sanitizeBranchOutput localStdout) = Some (star # toStr m)"
    by simp
  with assms(1,2) e
  show "\<exists>cs. issued (snd (cleanupTry sh flags w)) = issued w1 @ [gitBranch, gitFetch] @ cs"
    by (rule cleanupTry_on_main)
qed

theorem validator_gate_witness:
  "cleanupTry (exampleRunner remoteInfoMain localOnFeature) (noFlags(HEAD := JStr (js ''main'')))
      freshProcess =
     (Inr (), log (LogNotOnMain (js ''main''))
                (freshProcess\<lparr>issued := issued freshProcess @ [gitBranch]\<rparr>))
   \<and> (\<exists>cs. issued (snd (cleanupTry (exampleRunner remoteInfoMain localOnMain)
                (noFlags(HEAD := JStr (js ''main''))) freshProcess))
          = issued freshProcess @ [gitBranch, gitFetch] @ cs)"
proof -
  let ?fl = "noFlags(HEAD := JStr (js ''main''))"
  have ne: "js ''main'' \<noteq> []" by (simp add: js_def)
  have g: "getMainBranch sh ?fl freshProcess = (Inr (JStr (js ''main'')), freshProcess)" for sh
    by (simp add: getMainBranch_def ne)
  have t: "truthy (JStr (js ''main''))" by (simp add: ne)
  have e1: "fst (exec (exampleRunner remoteInfoMain localOnFeature) gitBranch False freshProcess)
      = Inr localOnFeature"
    by (simp add: exec_def exampleRunner_def succeeded_def gitBranch_def
          gitRemoteShowOrigin_def js_def)
  have e2: "fst (exec (exampleRunner remoteInfoMain localOnMain) gitBranch False freshProcess)
      = Inr localOnMain"
    by (simp add: exec_def exampleRunner_def succeeded_def gitBranch_def
          gitRemoteShowOrigin_def js_def)
  have c1: "currentBranch (sanitizeBranchOutput localOnFeature) = Some (star # js ''feature-a'')"
    by (simp add: currentBranch_def sanitizeBranchOutput_def localOnFeature_def js_def
          isSpace_def star_def)
  have c2: "currentBranch (sanitizeBranchOutput localOnMain) = Some (star # js ''main'')"
    by (simp add: currentBranch_def sanitizeBranchOutput_def localOnMain_def js_def
          isSpace_def star_def)
  have d: "js ''feature-a'' \<noteq> toStr (JStr (js ''main''))" by (simp add: js_def)
  have s: "js ''main'' = toStr (JStr (js ''main''))" by simp
  from validator_gate [OF g t e1 c1, THEN conjunct1, rule_format, OF d]
  have a: "cleanupTry (exampleRunner remoteInfoMain localOnFeature) ?fl freshProcess =
     (Inr (), log (LogNotOnMain (js ''main''))
                (freshProcess\<lparr>issued := issued freshProcess @ [gitBranch]\<rparr>))"
    by simp
  from validator_gate [OF g t e2 c2, THEN conjunct2, rule_format, OF s]
  have b: "\<exists>cs. issued (snd (cleanupTry (exampleRunner remoteInfoMain localOnMain) ?fl
                freshProcess))
          = issued freshProcess @ [gitBranch, gitFetch] @ cs" .
  from a b show ?thesis by (rule conjI)
qed

text \<open>
  Claim C10. Let the main branch be resolved and the local listing have succeeded. If no
  local token holds the marker \<open>*\<close>, no token is found as the checked-out branch and
  the run ends after the listing: the notice is logged and no fetch, remote listing or
  delete command is issued.
\<close>

theorem no_marker_aborts:
  assumes "getMainBranch sh flags w = (Inr m, w1)" and "truthy m"
    and "fst (exec sh gitBranch False w1) = Inr localStdout"
    and "\<forall>b \<in> set (sanitizeBranchOutput localStdout). star \<notin> set b"
  shows "currentBranch (sanitizeBranchOutput localStdout) = None
       \<and> cleanupTry sh flags w =
           (Inr (), log (LogNotOnMain (toStr m)) (w1\<lparr>issued := issued w1 @ [gitBranch]\<rparr>))"
proof -
  have none: "currentBranch (sanitizeBranchOutput localStdout) = None"
    using assms(4) by (simp add: currentBranch_def find_None_iff includes_js_single)
  then have "currentBranch (sanitizeBranchOutput localStdout) \<noteq> Some (star # toStr m)"
    by simp
  with assms(1,2) exec_pair [OF assms(3)] have "cleanupTry sh flags w =
      (Inr (), log (LogNotOnMain (toStr m)) (w1\<lparr>issued := issued w1 @ [gitBranch]\<rparr>))"
    by (rule cleanupTry_not_on_main)
  with none show ?thesis by (rule conjI)
qed

theorem no_marker_aborts_witness:
  "currentBranch (sanitizeBranchOutput localNoMarker) = None
   \<and> cleanupTry (exampleRunner remoteInfoMain localNoMarker)
        (noFlags(HEAD := JStr (js ''main''))) freshProcess =
       (Inr (), log (LogNotOnMain (toStr (JStr (js ''main''))))
                  (freshProcess\<lparr>issued := issued freshProcess @ [gitBranch]\<rparr>))"
proof -
  let ?fl = "noFlags(HEAD := JStr (js ''main''))"
  have ne: "js ''main'' \<noteq> []" by (simp add: js_def)
  have g: "getMainBranch (exampleRunner remoteInfoMain localNoMarker) ?fl freshProcess
             = (Inr (JStr (js ''main'')), freshProcess)"
    by (simp add: getMainBranch_def ne)
  have t: "truthy (JStr (js ''main''))" by (simp add: ne)
  have e: "fst (exec (exampleRunner remoteInfoMain localNoMarker) gitBranch False freshProcess)
      = Inr localNoMarker"
    by (simp add: exec_def exampleRunner_def succeeded_def gitBranch_def
          gitRemoteShowOrigin_def js_def)
  have tokens: "sanitizeBranchOutput localNoMarker = [js ''feature-a'', js ''main'']"
    by (simp add: sanitizeBranchOutput_def localNoMarker_def js_def isSpace_def)
  have m: "\<forall>b \<in> set (sanitizeBranchOutput localNoMarker). star \<notin> set b"
    unfolding tokens by (simp add: js_def star_def)
  show ?thesis by (rule no_marker_aborts [OF g t e m])
qed

section \<open>The head override\<close>

text \<open>
  Claim C6, as the code has it. If the head flag holds a string that is not empty,
  \<open>getMainBranch\<close> returns that string for every runner and leaves the process state
  as it was: no command is issued, so the remote is not queried.
\<close>

theorem head_override_returned:
  assumes "flags HEAD = JStr v" and "v \<noteq> []"
  shows "getMainBranch sh flags w = (Inr (JStr v), w)"
  using assms by (simp add: getMainBranch_def)

theorem head_override_returned_witness:
  "fst (getActiveFlags [js ''--head'', js ''develop''] freshProcess) HEAD = JStr (js ''develop'')
   \<and> js ''develop'' \<noteq> []
   \<and> getMainBranch (exampleRunner remoteInfoMain localOnMain)
        (fst (getActiveFlags [js ''--head'', js ''develop''] freshProcess)) freshProcess
       = (Inr (JStr (js ''develop'')), freshProcess)"
proof -
  have h1: "fst (getActiveFlags [js ''--head'', js ''develop''] freshProcess) HEAD
              = JStr (js ''develop'')"
    by code_simp
  have h2: "js ''develop'' \<noteq> []" by (simp add: js_def)
  from h1 h2 head_override_returned [of "fst (getActiveFlags [js ''--head'', js ''develop''] freshProcess)"
      "js ''develop''" "exampleRunner remoteInfoMain localOnMain" freshProcess, OF h1 h2]
  show ?thesis by (intro conjI)
qed

text \<open>
  The claim as stated fails for an override that is the empty string: the arguments
  \<open>--head ''\<close> put the empty string into the flag set, \<open>getMainBranch\<close> does not
  return it but queries the remote, and returns the branch found there.
\<close>

theorem head_override_empty_counterexample:
  "fst (getActiveFlags [js ''--head'', []] freshProcess) HEAD = JStr []
   \<and> fst (getMainBranch (exampleRunner remoteInfoMain localOnMain)
        (fst (getActiveFlags [js ''--head'', []] freshProcess)) freshProcess)
       = Inr (JStr (js ''main''))
   \<and> issued (snd (getMainBranch (exampleRunner remoteInfoMain localOnMain)
        (fst (getActiveFlags [js ''--head'', []] freshProcess)) freshProcess))
       = [gitRemoteShowOrigin]"
  by code_simp

section \<open>The state of the regular expression\<close>

text \<open>
  Claim C9 does not hold of the code. \<open>HEAD_BRANCH_REGEX\<close> is one object for the whole
  module and has the \<open>g\<close> flag, so \<open>exec\<close> starts at the \<open>lastIndex\<close> the call
  before left. With the same remote text, the first resolution in a fresh process finds
  \<open>main\<close>, the second finds nothing and returns null, and the second run of the
  exported function ends with the message that the head branch cannot be found.
\<close>

theorem head_regex_keeps_lastIndex:
  "fst (getMainBranch (exampleRunner remoteInfoMain localOnMain) noFlags freshProcess)
     = Inr (JStr (js ''main''))
   \<and> lastIndex (snd (getMainBranch (exampleRunner remoteInfoMain localOnMain) noFlags
        freshProcess)) = 35
   \<and> fst (getMainBranch (exampleRunner remoteInfoMain localOnMain) noFlags
        (snd (getMainBranch (exampleRunner remoteInfoMain localOnMain) noFlags freshProcess)))
     = Inr JNull
   \<and> last (console (gitCleanup (exampleRunner remoteInfoMain localOnMain) []
        (gitCleanup (exampleRunner remoteInfoMain localOnMain) [] freshProcess)))
     = ErrorCannotFindHead"
  by code_simp

end
